theory Spec2Isabelle
  imports Complex_Main "HOL-Library.Char_ord" "HOL-Library.List_Lexorder"
    "HOL-Library.Product_Lexorder"
begin

section \<open>Conventions\<close>

text \<open>
  The development embeds the planning scripts \<^verbatim>\<open>master_kikaika.py\<close> and
  \<^verbatim>\<open>child_requirements.py\<close>.

  \<^item> A calendar date is its proleptic ordinal (Python's \<^verbatim>\<open>date.toordinal()\<close>), an
    \<open>int\<close>: comparing dates compares ordinals, and the \<^verbatim>\<open>timedelta\<close> between two dates
    is the difference of their ordinals.
  \<^item> A quantity is a \<open>real\<close>. The scripts hold quantities in float64 columns; rounding
    of float64 arithmetic is not modelled. For the join keys, where the type of a column
    (int64, uint64 or float64) and the conversions between them decide the key, the
    conversions are modelled.
  \<^item> A part key is a \<open>string\<close>; strings are ordered by their characters' codes, as
    Python orders them.
  \<^item> A Python exception is a value \<open>Inl e\<close> of a sum type.
  \<^item> The scripts name some columns in Japanese. They have ASCII names here: \<open>chuzan\<close> is
    the backlog column of the open orders, \<open>theory\<close>, \<open>external\<close> and \<open>total\<close> are the
    shelf-count, external-warehouse and stock-total columns, \<open>startable\<close> and
    \<open>unfulfilled\<close> are the startable-quantity and unfulfilled-material columns.
\<close>

type_synonym date = int
type_synonym part = string

datatype py_error = IndexError

section \<open>Calendar: \<^verbatim>\<open>nearest_workday\<close> and \<^verbatim>\<open>delivery_date_from_shortage\<close>\<close>

text \<open>
  Python list indexing \<^verbatim>\<open>xs[i]\<close>: a negative index counts from the end, an index out of
  range raises \<^verbatim>\<open>IndexError\<close>.
\<close>

definition py_index :: "'a list \<Rightarrow> int \<Rightarrow> py_error + 'a" where
  "py_index xs i =
     (let n = int (length xs) in
      if 0 \<le> i \<and> i < n then Inr (xs ! nat i)
      else if - n \<le> i \<and> i < 0 then Inr (xs ! nat (n + i))
      else Inl IndexError)"

text \<open>
  \<^verbatim>\<open>bisect.bisect_left(a, x)\<close> and \<^verbatim>\<open>np.searchsorted(a, x, side="left")\<close> are the same
  binary search:
  \<^verbatim>\<open>
  lo, hi = 0, len(a)
  while lo < hi:
      mid = (lo + hi) // 2
      if a[mid] < x: lo = mid + 1
      else: hi = mid
  return lo
  \<close>
\<close>

function bisect_loop :: "date list \<Rightarrow> date \<Rightarrow> nat \<Rightarrow> nat \<Rightarrow> nat" where
  "bisect_loop a x lo hi =
     (if lo < hi then
        (let mid = (lo + hi) div 2 in
         if a ! mid < x then bisect_loop a x (mid + 1) hi
         else bisect_loop a x lo mid)
      else lo)"
  by pat_completeness auto
termination
  by (relation "measure (\<lambda>(a, x, lo, hi). hi - lo)") auto

declare bisect_loop.simps [simp del]

definition bisect_left :: "date list \<Rightarrow> date \<Rightarrow> nat" where
  "bisect_left a x = bisect_loop a x 0 (length a)"

text \<open>
  \<^verbatim>\<open>
  def nearest_workday(workdays, target):
      if not workdays: return target
      if target <= workdays[0]: return workdays[0]
      if target >= workdays[-1]: return workdays[-1]
      i = bisect.bisect_left(workdays, target)
      before = workdays[i - 1]
      after = workdays[i]
      if (target - before) <= (after - target): return before
      return after
  \<close>
  After the first test the list is not empty, so \<^verbatim>\<open>workdays[0]\<close> and \<^verbatim>\<open>workdays[-1]\<close>
  are \<open>hd\<close> and \<open>last\<close>.
\<close>

definition nearest_workday :: "date list \<Rightarrow> date \<Rightarrow> py_error + date" where
  "nearest_workday workdays target =
     (if workdays = [] then Inr target
      else if target \<le> hd workdays then Inr (hd workdays)
      else if target \<ge> last workdays then Inr (last workdays)
      else
        (let i = int (bisect_left workdays target) in
         case py_index workdays (i - 1) of
           Inl e \<Rightarrow> Inl e
         | Inr day_before \<Rightarrow>
             (case py_index workdays i of
                Inl e \<Rightarrow> Inl e
              | Inr day_after \<Rightarrow>
                  if target - day_before \<le> day_after - target then Inr day_before
                  else Inr day_after)))"

text \<open>
  \<^verbatim>\<open>
  def delivery_date_from_shortage(workdays, shortage, back_days=5):
      s = nearest_workday(workdays, shortage)
      wd = np.array(workdays, dtype="datetime64[D]")
      idx = int(np.searchsorted(wd, np.datetime64(s), side="left"))
      due_idx = max(0, idx - back_days)
      return workdays[due_idx]
  \<close>
\<close>

definition delivery_date_from_shortage :: "date list \<Rightarrow> date \<Rightarrow> int \<Rightarrow> py_error + date" where
  "delivery_date_from_shortage workdays shortage back_days =
     (case nearest_workday workdays shortage of
        Inl e \<Rightarrow> Inl e
      | Inr s \<Rightarrow>
          (let idx = int (bisect_left workdays s);
               due_idx = max 0 (idx - back_days)
           in py_index workdays due_idx))"

text \<open>
  The specification's wording of the nearest workday of a date in a calendar: the first
  workday when the date is at or before it, the last when it is at or after it, and
  otherwise the closer of the two workdays around the date, the earlier one on a tie.
\<close>

definition is_nearest_workday :: "date list \<Rightarrow> date \<Rightarrow> date \<Rightarrow> bool" where
  "is_nearest_workday workdays d w =
     (if d \<le> hd workdays then w = hd workdays
      else if last workdays \<le> d then w = last workdays
      else (\<exists>b \<in> set workdays. \<exists>a \<in> set workdays.
              b < d \<and> d \<le> a \<and> (\<forall>x \<in> set workdays. x \<le> b \<or> a \<le> x) \<and>
              w = (if d - b \<le> a - d then b else a)))"

section \<open>Shortage detection: \<^verbatim>\<open>compute_shortage\<close>\<close>

text \<open>
  \<^verbatim>\<open>
  def compute_shortage(req_row, inv_total, date_colnames, date_cols):
      cum = 0.0
      shortage_date = None
      for d, col in zip(date_cols, date_colnames):
          cum += float(req_row.get(col, 0.0))
          if shortage_date is None and (inv_total - cum) <= 0:
              shortage_date = d
      shortage_qty = inv_total - cum
      return shortage_date, shortage_qty
  \<close>
  The row is given as the list of its (date, quantity) cells in the order of
  \<^verbatim>\<open>date_cols\<close>; the loop state is \<^verbatim>\<open>(cum, shortage_date)\<close>.
\<close>

fun shortage_loop :: "real \<Rightarrow> (date \<times> real) list \<Rightarrow> real \<Rightarrow> date option \<Rightarrow> real \<times> date option" where
  "shortage_loop inv_total [] cum shortage_date = (cum, shortage_date)"
| "shortage_loop inv_total ((d, q) # rest) cum shortage_date =
     (let cum' = cum + q;
          shortage_date' =
            (if shortage_date = None \<and> inv_total - cum' \<le> 0 then Some d else shortage_date)
      in shortage_loop inv_total rest cum' shortage_date')"

definition compute_shortage :: "(date \<times> real) list \<Rightarrow> real \<Rightarrow> date option \<times> real" where
  "compute_shortage req_row inv_total =
     (case shortage_loop inv_total req_row 0 None of
        (cum, shortage_date) \<Rightarrow> (shortage_date, inv_total - cum))"

text \<open>
  The specification's wording of the detector: the cumulative demand through day \<open>i\<close>,
  and the first day whose remainder is not positive.
\<close>

definition cum_through :: "(date \<times> real) list \<Rightarrow> nat \<Rightarrow> real" where
  "cum_through demand i = sum_list (map snd (take (Suc i) demand))"

definition first_shortfall :: "real \<Rightarrow> (date \<times> real) list \<Rightarrow> date option" where
  "first_shortfall available demand =
     map_option (\<lambda>i. fst (demand ! i))
       (find (\<lambda>i. available - cum_through demand i \<le> 0) [0..<length demand])"

section \<open>Join keys: \<^verbatim>\<open>to_int_str\<close>\<close>

text \<open>
  A cell of an object column as the database driver returns it: an integer, a float
  (given by the number the float64 holds; it is finite), a text, or NULL/NaN.
\<close>

datatype cell = IntV int | FloatV real | StrV string | NullV

text \<open>
  How pandas reads the text of a cell is pandas' own code, not the repository's. It is
  modelled on plain decimal literals: white space around, an optional sign, digits with
  an optional fraction. A literal without point is read as an integer, one with a point
  as a float. Exponents, hexadecimal literals and the words \<^verbatim>\<open>inf\<close> and \<^verbatim>\<open>nan\<close>, which
  pandas reads too, are not modelled, and neither are numbers of magnitude \<open>2 ^ 1024\<close> and
  more, which a float64 cannot hold.
\<close>

definition is_space :: "char \<Rightarrow> bool" where
  "is_space c \<longleftrightarrow> c \<in> {CHR '' '', CHR 0x09, CHR 0x0A, CHR 0x0B, CHR 0x0C, CHR 0x0D}"

definition strip_spaces :: "string \<Rightarrow> string" where
  "strip_spaces s = rev (dropWhile is_space (rev (dropWhile is_space s)))"

definition is_digit :: "char \<Rightarrow> bool" where
  "is_digit c \<longleftrightarrow> c \<in> set ''0123456789''"

definition digit_value :: "char \<Rightarrow> int" where
  "digit_value c = of_char c - 48"

definition digits_value :: "string \<Rightarrow> int" where
  "digits_value s = foldl (\<lambda>acc c. 10 * acc + digit_value c) 0 s"

text \<open>The result of parsing: whether the literal is an integer literal, and its value.\<close>

definition parse_unsigned :: "string \<Rightarrow> (bool \<times> rat) option" where
  "parse_unsigned s =
     (let ip = takeWhile is_digit s; rest = dropWhile is_digit s in
      case rest of
        [] \<Rightarrow> if ip = [] then None else Some (True, of_int (digits_value ip))
      | c # fp \<Rightarrow>
          if c = CHR ''.'' \<and> list_all is_digit fp \<and> (ip \<noteq> [] \<or> fp \<noteq> [])
          then Some (False, of_int (digits_value ip) + of_int (digits_value fp) / 10 ^ length fp)
          else None)"

definition parse_number :: "string \<Rightarrow> (bool \<times> rat) option" where
  "parse_number s =
     (case strip_spaces s of
        [] \<Rightarrow> None
      | c # cs \<Rightarrow>
          if c = CHR ''-'' then map_option (\<lambda>(is_int, v). (is_int, - v)) (parse_unsigned cs)
          else if c = CHR ''+'' then parse_unsigned cs
          else parse_unsigned (c # cs))"

text \<open>
  The float64 nearest to a rational number (ties to the even significand of 53 bits), as
  the conversion of an integer to float64 gives it. Integers up to \<open>2 ^ 53\<close> are float64
  values themselves. The exponent range of float64 is not modelled.
\<close>

function bit_length :: "int \<Rightarrow> int" where
  "bit_length n = (if n \<le> 0 then 0 else 1 + bit_length (n div 2))"
  by pat_completeness auto
termination
  by (relation "measure nat") auto

declare bit_length.simps [simp del]

definition float64_round_pos :: "int \<Rightarrow> int \<Rightarrow> rat" where
  "float64_round_pos p q =
     (let e0 = bit_length p - bit_length q - 53;
          scaled = (\<lambda>e. if 0 \<le> e then (p, q * 2 ^ nat e) else (p * 2 ^ nat (- e), q));
          e = (if fst (scaled e0) div snd (scaled e0) \<ge> 2 ^ 53 then e0 + 1 else e0);
          n = fst (scaled e); d = snd (scaled e);
          m = n div d; r = n mod d;
          m' = (if 2 * r > d \<or> (2 * r = d \<and> odd m) then m + 1 else m)
      in if 0 \<le> e then of_int (m' * 2 ^ nat e) else of_int m' / 2 ^ nat (- e))"

definition float64_round :: "rat \<Rightarrow> rat" where
  "float64_round x =
     (let (a, b) = quotient_of x in
      if b = 1 \<and> \<bar>a\<bar> \<le> 2 ^ 53 then x
      else if 0 < a then float64_round_pos a b
      else - float64_round_pos (- a) b)"

text \<open>
  What \<^verbatim>\<open>pd.to_numeric(s, errors="coerce")\<close> sees in one cell: an integer, a float, or
  nothing that is a number (NULL, or a text it cannot parse).
\<close>

datatype num = IntN int | FloatN real | NaN

fun scan_cell :: "cell \<Rightarrow> num" where
  "scan_cell (IntV i) = IntN i"
| "scan_cell (FloatV x) = FloatN x"
| "scan_cell (StrV s) =
     (case parse_number s of
        None \<Rightarrow> NaN
      | Some (is_int, v) \<Rightarrow> if is_int then IntN \<lfloor>v\<rfloor> else FloatN (of_rat (float64_round v)))"
| "scan_cell NullV = NaN"

text \<open>The number in a cell, \<open>None\<close> for NaN: the reading that the quantity columns use.\<close>

definition to_numeric :: "cell \<Rightarrow> real option" where
  "to_numeric c = (case scan_cell c of IntN i \<Rightarrow> Some (of_int i) | FloatN x \<Rightarrow> Some x | NaN \<Rightarrow> None)"

text \<open>
  The column that \<^verbatim>\<open>pd.to_numeric\<close> returns has one type for all its cells. It is a
  float64 column as soon as one cell is a float or NaN (also when an integer does not fit
  64 bits, or when an integer above the int64 range stands beside a negative one);
  integers are then converted to float64. It is a uint64 column when all cells are
  integers, none negative and one above the int64 range, and an int64 column otherwise.
\<close>

definition INT64_MIN :: int where "INT64_MIN = - (2 ^ 63)"
definition INT64_MAX :: int where "INT64_MAX = 2 ^ 63 - 1"
definition UINT64_MAX :: int where "UINT64_MAX = 2 ^ 64 - 1"

datatype numeric_column = Int64 "int list" | UInt64 "int list" | Float64 "real option list"

fun seen_float :: "num \<Rightarrow> bool" where
  "seen_float (IntN i) \<longleftrightarrow> i < INT64_MIN \<or> UINT64_MAX < i"
| "seen_float (FloatN x) \<longleftrightarrow> True"
| "seen_float NaN \<longleftrightarrow> True"

fun seen_uint :: "num \<Rightarrow> bool" where
  "seen_uint (IntN i) \<longleftrightarrow> INT64_MAX < i"
| "seen_uint n \<longleftrightarrow> False"

fun seen_sint :: "num \<Rightarrow> bool" where
  "seen_sint (IntN i) \<longleftrightarrow> i < 0"
| "seen_sint n \<longleftrightarrow> False"

fun as_float64 :: "num \<Rightarrow> real option" where
  "as_float64 (IntN i) = Some (of_rat (float64_round (of_int i)))"
| "as_float64 (FloatN x) = Some x"
| "as_float64 NaN = None"

fun as_int :: "num \<Rightarrow> int" where
  "as_int (IntN i) = i"
| "as_int n = 0"

definition to_numeric_column :: "cell list \<Rightarrow> numeric_column" where
  "to_numeric_column s =
     (let ns = map scan_cell s in
      if list_ex seen_float ns \<or> (list_ex seen_uint ns \<and> list_ex seen_sint ns)
      then Float64 (map as_float64 ns)
      else if list_ex seen_uint ns then UInt64 (map as_int ns)
      else Int64 (map as_int ns))"

text \<open>
  \<^verbatim>\<open>.astype(int)\<close>: a float64 is converted as the processor converts it (x86-64): the
  fraction is cut off, towards zero, and a value outside the int64 range gives the least
  int64. A uint64 above the int64 range wraps around. An int64 column stays as it is.
\<close>

definition trunc_toward_zero :: "real \<Rightarrow> int" where
  "trunc_toward_zero x = (if 0 \<le> x then \<lfloor>x\<rfloor> else \<lceil>x\<rceil>)"

definition float64_to_int64 :: "real \<Rightarrow> int" where
  "float64_to_int64 x =
     (let t = trunc_toward_zero x in
      if INT64_MIN \<le> t \<and> t \<le> INT64_MAX then t else INT64_MIN)"

definition uint64_to_int64 :: "int \<Rightarrow> int" where
  "uint64_to_int64 i = (if INT64_MAX < i then i - 2 ^ 64 else i)"

text \<open>\<^verbatim>\<open>.astype(str)\<close> on an integer column is Python's \<^verbatim>\<open>str(int)\<close>.\<close>

definition digit_char :: "nat \<Rightarrow> char" where
  "digit_char n = ''0123456789'' ! n"

function str_of_nat :: "int \<Rightarrow> string" where
  "str_of_nat n =
     (if n < 10 then [digit_char (nat n)]
      else str_of_nat (n div 10) @ [digit_char (nat (n mod 10))])"
  by pat_completeness auto
termination
  by (relation "measure nat") auto

declare str_of_nat.simps [simp del]

definition str_of_int :: "int \<Rightarrow> string" where
  "str_of_int i = (if i < 0 then CHR ''-'' # str_of_nat (- i) else str_of_nat i)"

text \<open>
  \<^verbatim>\<open>
  def to_int_str(s):
      return (pd.to_numeric(s, errors="coerce")
                .fillna(-1)
                .astype(int)
                .astype(str))
  \<close>
  Only a float64 column can hold NaN, so \<^verbatim>\<open>fillna(-1)\<close> changes no other column.
\<close>

definition fillna :: "real \<Rightarrow> real option \<Rightarrow> real" where
  "fillna v x = (case x of None \<Rightarrow> v | Some y \<Rightarrow> y)"

definition to_int_str :: "cell list \<Rightarrow> string list" where
  "to_int_str s =
     (case to_numeric_column s of
        Int64 xs \<Rightarrow> map str_of_int xs
      | UInt64 xs \<Rightarrow> map (\<lambda>i. str_of_int (uint64_to_int64 i)) xs
      | Float64 xs \<Rightarrow> map (\<lambda>x. str_of_int (float64_to_int64 (fillna (- 1) x))) xs)"


section \<open>Data frames: \<^verbatim>\<open>groupby\<close> and \<^verbatim>\<open>merge\<close>\<close>

text \<open>
  A data frame is the list of its rows.

  \<^verbatim>\<open>df.groupby(key, as_index=False).agg(col=(val, "sum"))\<close> has one row for every key that
  occurs, in ascending order of the keys, with the sum of the group's values.
\<close>

definition groupby_sum :: "('r \<Rightarrow> 'k::linorder) \<Rightarrow> ('r \<Rightarrow> real) \<Rightarrow> 'r list \<Rightarrow> ('k \<times> real) list" where
  "groupby_sum key val rows =
     map (\<lambda>k. (k, sum_list (map val (filter (\<lambda>r. key r = k) rows))))
       (sort (remdups (map key rows)))"

text \<open>
  \<^verbatim>\<open>left.merge(right, how="left", ...)\<close>: every left row, in order, once for each right
  row whose key matches it, and once with the right columns missing (NaN) when none does.
\<close>

definition merge_left :: "('a \<Rightarrow> 'b \<Rightarrow> bool) \<Rightarrow> 'a list \<Rightarrow> 'b list \<Rightarrow> ('a \<times> 'b option) list" where
  "merge_left on left right =
     concat (map (\<lambda>l. case filter (on l) right of
                          [] \<Rightarrow> [(l, None)]
                        | ms \<Rightarrow> map (\<lambda>r. (l, Some r)) ms) left)"

section \<open>Open orders: \<^verbatim>\<open>load_mfg_open_orders\<close>\<close>


text \<open>A row of \<^verbatim>\<open>mfg_orders\<close>; \<open>chuzan\<close> is the backlog column (ordered minus delivered).\<close>

record mfg_row =
  PDNO :: "int option"
  OPRO_K :: string
  MITM_N :: part
  chuzan :: real



section \<open>Startable quantity: \<^verbatim>\<open>load_paintable\<close>\<close>

text \<open>
  The rows of the purchase lines (\<^verbatim>\<open>TTDPUR041002\<close>) and of the receipts
  (\<^verbatim>\<open>TTDPUR045002\<close>) that the chunked queries return, concatenated. The queries select by
  \<^verbatim>\<open>PDNO IN (...)\<close>, so \<^verbatim>\<open>PDNO\<close> is never NULL there; \<^verbatim>\<open>PONO\<close> and \<^verbatim>\<open>ORNO\<close> are the strings
  that \<^verbatim>\<open>astype(str)\<close> makes of them.
\<close>

record p041_row =
  p041_PDNO :: int
  p041_OPNO :: cell
  p041_PONO :: string
  p041_ORNO :: string
  p041_OQUA :: cell

record p045_row =
  p045_PDNO :: int
  p045_PONO :: string
  p045_ORNO :: string
  p045_DQUA :: cell

text \<open>\<^verbatim>\<open>pd.to_numeric(col, errors="coerce").fillna(0)\<close> on the two quantity columns.\<close>

definition OQUA :: "p041_row \<Rightarrow> real" where
  "OQUA p = fillna 0 (to_numeric (p041_OQUA p))"

definition DQUA :: "p045_row \<Rightarrow> real" where
  "DQUA r = fillna 0 (to_numeric (p045_DQUA r))"

text \<open>
  \<^verbatim>\<open>p041["OPNO_K"] = to_int_str(p041["OPNO"])\<close>: every purchase line with its key.
\<close>

definition p041_keyed :: "p041_row list \<Rightarrow> (p041_row \<times> string) list" where
  "p041_keyed p041 = zip p041 (to_int_str (map p041_OPNO p041))"

text \<open>
  \<^verbatim>\<open>p045.groupby(["PDNO", "PONO", "ORNO"], as_index=False).agg(DQUA_SUM=("DQUA", "sum"))\<close>
\<close>

definition p045_sum :: "p045_row list \<Rightarrow> ((int \<times> string \<times> string) \<times> real) list" where
  "p045_sum p045 = groupby_sum (\<lambda>r. (p045_PDNO r, p045_PONO r, p045_ORNO r)) DQUA p045"

text \<open>
  The keys of the two merges: \<^verbatim>\<open>left_on=["PDNO", "OPRO_K"], right_on=["PDNO", "OPNO_K"]\<close>, and
  \<^verbatim>\<open>on=["PDNO", "PONO", "ORNO"]\<close>. A row without purchase line has NaN in \<^verbatim>\<open>PONO\<close> and
  \<^verbatim>\<open>ORNO\<close>, which no string of the receipts' summary equals.
\<close>

definition on_PDNO_OPRO_K :: "mfg_row \<Rightarrow> p041_row \<times> string \<Rightarrow> bool" where
  "on_PDNO_OPRO_K l r \<longleftrightarrow> PDNO l = Some (p041_PDNO (fst r)) \<and> OPRO_K l = snd r"

definition on_PDNO_PONO_ORNO ::
  "mfg_row \<times> (p041_row \<times> string) option \<Rightarrow> (int \<times> string \<times> string) \<times> real \<Rightarrow> bool" where
  "on_PDNO_PONO_ORNO l r \<longleftrightarrow>
     (case snd l of
        None \<Rightarrow> False
      | Some p \<Rightarrow>
          (PDNO (fst l), p041_PONO (fst p), p041_ORNO (fst p)) =
          (Some (fst (fst r)), fst (snd (fst r)), snd (snd (fst r))))"

type_synonym j_row =
  "(mfg_row \<times> (p041_row \<times> string) option) \<times> ((int \<times> string \<times> string) \<times> real) option"

definition join_j :: "mfg_row list \<Rightarrow> p041_row list \<Rightarrow> p045_row list \<Rightarrow> j_row list" where
  "join_j mfg_orders p041 p045 =
     merge_left on_PDNO_PONO_ORNO (merge_left on_PDNO_OPRO_K mfg_orders (p041_keyed p041))
       (p045_sum p045)"

text \<open>The columns of \<^verbatim>\<open>j\<close> that are summed, after their \<^verbatim>\<open>fillna(0)\<close>.\<close>

definition j_MITM_N :: "j_row \<Rightarrow> part" where
  "j_MITM_N j = MITM_N (fst (fst j))"

definition j_chuzan :: "j_row \<Rightarrow> real" where
  "j_chuzan j = chuzan (fst (fst j))"

definition j_OQUA :: "j_row \<Rightarrow> real" where
  "j_OQUA j = fillna 0 (map_option (\<lambda>p. OQUA (fst p)) (snd (fst j)))"

definition j_DQUA_SUM :: "j_row \<Rightarrow> real" where
  "j_DQUA_SUM j = fillna 0 (map_option snd (snd j))"

text \<open>
  \<^verbatim>\<open>
  g = j.groupby("MITM_N", as_index=False).agg(A=("chuzan", "sum"), B_OQUA=("OQUA", "sum"),
                                               C_DQUA=("DQUA_SUM", "sum"))
  \<close>
\<close>

record g_row =
  g_MITM_N :: part
  A_chuzan :: real
  B_OQUA :: real
  C_DQUA :: real

definition agg_g :: "j_row list \<Rightarrow> g_row list" where
  "agg_g j =
     map (\<lambda>m. let rows = filter (\<lambda>r. j_MITM_N r = m) j in
               \<lparr>g_MITM_N = m,
                A_chuzan = sum_list (map j_chuzan rows),
                B_OQUA = sum_list (map j_OQUA rows),
                C_DQUA = sum_list (map j_DQUA_SUM rows)\<rparr>)
       (sort (remdups (map j_MITM_N j)))"

text \<open>
  \<^verbatim>\<open>
  def load_paintable(mfg_orders):
      if mfg_orders.empty: return (no rows)
      pdnos = mfg_orders["PDNO"].dropna().astype(int).unique().tolist()
      if not pdnos: return (no rows)
      ... p041, p045 = the two queries ...
      if p041.empty:
          g = mfg_orders.groupby("MITM_N", as_index=False).agg(A=("chuzan", "sum"))
          g["startable"] = g["A"].clip(lower=0)
          return g[["MITM_N", "startable"]]
      ...
      g["unfulfilled"] = g["B_OQUA"] - g["C_DQUA"]
      g["startable"] = (g["A"] - g["unfulfilled"]).clip(lower=0)
      return g[["MITM_N", "startable"]]
  \<close>
  The result is the list of its (part, startable quantity) rows.
\<close>

definition load_paintable :: "mfg_row list \<Rightarrow> p041_row list \<Rightarrow> p045_row list \<Rightarrow> (part \<times> real) list" where
  "load_paintable mfg_orders p041 p045 =
     (if mfg_orders = [] then []
      else if remdups (concat (map (\<lambda>r. case PDNO r of None \<Rightarrow> [] | Some n \<Rightarrow> [n]) mfg_orders)) = []
      then []
      else if p041 = [] then
        map (\<lambda>(m, a). (m, max 0 a)) (groupby_sum MITM_N chuzan mfg_orders)
      else
        map (\<lambda>g. (g_MITM_N g, max 0 (A_chuzan g - (B_OQUA g - C_DQUA g))))
          (agg_g (join_j mfg_orders p041 p045)))"


section \<open>Report assembly: the inventory and shortage part of \<^verbatim>\<open>main\<close>\<close>

text \<open>
  The frames that \<^verbatim>\<open>main\<close> joins: \<open>mp\<close> (the machine parts, by their key \<^verbatim>\<open>MITM_N\<close>),
  \<open>stoc\<close> (on-hand stock), \<open>theory\<close> (theoretical shelf count), \<open>external\<close>
  (external-warehouse stock), each a list of (part, quantity) rows, and \<open>req\<close>, the daily
  requirements with one quantity per date column.
  \<^verbatim>\<open>
  base = mp.merge(stoc, on="MITM_N", how="left");            base["STOC"] = base["STOC"].fillna(0)
  base = base.merge(theory, left_on="MITM_N", right_on="ITEM_N", how="left")
  base["theory"] = base["theory"].fillna(0)
  base = base.merge(external, left_on="MITM_N", right_on="ITEM_N", how="left")
  base["external"] = base["external"].fillna(0)
  base["total"] = base["theory"] + base["external"]
  ...
  out = base.merge(req, on="MITM_N", how="left")
  out[date_colnames] = out[date_colnames].fillna(0)
  \<close>
  The merges that follow in \<^verbatim>\<open>main\<close> (backlog, startable quantity) only add columns and are
  left out.
\<close>

record out_row =
  out_MITM_N :: part
  STOC :: real
  theory_cnt :: real
  external_qty :: real
  stock_total :: real
  requirements :: "real list"

definition main_out ::
  "part list \<Rightarrow> (part \<times> real) list \<Rightarrow> (part \<times> real) list \<Rightarrow> (part \<times> real) list \<Rightarrow>
   nat \<Rightarrow> (part \<times> real list) list \<Rightarrow> out_row list" where
  "main_out mp stoc theory external n_date_cols req =
     (let b1 = map (\<lambda>(m, s). (m, fillna 0 (map_option snd s)))
                 (merge_left (\<lambda>l r. fst r = l) mp stoc);
          b2 = map (\<lambda>((m, s), t). (m, s, fillna 0 (map_option snd t)))
                 (merge_left (\<lambda>l r. fst r = fst l) b1 theory);
          b3 = map (\<lambda>((m, s, t), e). (m, s, t, fillna 0 (map_option snd e)))
                 (merge_left (\<lambda>l r. fst r = fst l) b2 external);
          b4 = map (\<lambda>(m, s, t, e). (m, s, t, e, t + e)) b3
      in map (\<lambda>((m, s, t, e, total), q).
                \<lparr>out_MITM_N = m, STOC = s, theory_cnt = t, external_qty = e,
                 stock_total = total,
                 requirements = (case q of None \<Rightarrow> replicate n_date_cols 0 | Some r \<Rightarrow> snd r)\<rparr>)
           (merge_left (\<lambda>l r. fst r = fst l) b4 req))"

text \<open>
  \<^verbatim>\<open>
  for _, r in out.iterrows():
      inv_total = float(r["STOC"])   # left as it was (may be changed to the total if needed)
      sdate, sqty = compute_shortage(r, inv_total, date_colnames, date_cols)
      shortage_dates.append(sdate)
      shortage_qtys.append(sqty)
  \<close>
\<close>

definition inv_total :: "out_row \<Rightarrow> real" where
  "inv_total r = STOC r"

definition main_shortages :: "date list \<Rightarrow> out_row list \<Rightarrow> (date option \<times> real) list" where
  "main_shortages date_cols out =
     map (\<lambda>r. compute_shortage (zip date_cols (requirements r)) (inv_total r)) out"

text \<open>
  The specification's wording of a source lookup: the quantity of the part in a source,
  0 when the part is absent from it.
\<close>

definition quantity_in :: "(part \<times> real) list \<Rightarrow> part \<Rightarrow> real" where
  "quantity_in source m = (case map_of source m of None \<Rightarrow> 0 | Some v \<Rightarrow> v)"

section \<open>BOM explosion: \<^verbatim>\<open>run\<close> of \<^verbatim>\<open>child_requirements.py\<close>\<close>

text \<open>
  The rows of \<^verbatim>\<open>df_sched\<close> (one planned quantity of a parent on a day) and of \<^verbatim>\<open>df_bom\<close>
  (one child of a parent with its quantity per unit), as they stand when the explosion
  loop starts.
\<close>

record sched_row =
  ProdDate :: date
  Item :: part
  Qty :: real

record bom_row =
  bom_Item :: part
  sItem :: part
  bomValue :: real

text \<open>A row of \<^verbatim>\<open>exploded\<close>: \<^verbatim>\<open>(ProdDate, sItem, needQty)\<close>.\<close>

type_synonym need_row = "date \<times> part \<times> real"

definition HORIZON_DAYS :: nat where
  "HORIZON_DAYS = 60"

text \<open>
  \<^verbatim>\<open>
  bom_cache = {}
  for parent_item, subdf in df_bom.groupby("Item"):
      bom_cache[parent_item] = subdf[["sItem", "bomValue"]].reset_index(drop=True)
  \<close>
  A parent is a key of the dictionary exactly when it has a BOM row.
\<close>

definition bom_cache :: "bom_row list \<Rightarrow> part \<Rightarrow> bom_row list option" where
  "bom_cache df_bom parent_item =
     (let subdf = filter (\<lambda>b. bom_Item b = parent_item) df_bom in
      if subdf = [] then None else Some subdf)"

text \<open>
  \<^verbatim>\<open>
  records = []
  for row in df_sched.itertuples():
      if row.Item not in bom_cache: continue
      bom_rows = bom_cache[row.Item].copy()
      bom_rows["needQty"] = bom_rows["bomValue"] * row.Qty
      bom_rows["ProdDate"] = row.ProdDate
      records.append(bom_rows[["ProdDate", "sItem", "needQty"]])
  \<close>
  \<open>need_frame\<close> is the frame that one pass of the loop appends.
\<close>

definition need_frame :: "sched_row \<Rightarrow> bom_row list \<Rightarrow> need_row list" where
  "need_frame row bom_rows = map (\<lambda>b. (ProdDate row, sItem b, bomValue b * Qty row)) bom_rows"

fun explode_records :: "(part \<Rightarrow> bom_row list option) \<Rightarrow> sched_row list \<Rightarrow> need_row list list" where
  "explode_records cache [] = []"
| "explode_records cache (row # rest) =
     (case cache (Item row) of
        None \<Rightarrow> explode_records cache rest
      | Some bom_rows \<Rightarrow> need_frame row bom_rows # explode_records cache rest)"

text \<open>
  \<^verbatim>\<open>grouped = exploded.groupby(["sItem", "ProdDate"], as_index=False)["needQty"].sum()\<close>
\<close>

definition grouped_needs :: "need_row list \<Rightarrow> ((part \<times> date) \<times> real) list" where
  "grouped_needs exploded = groupby_sum (\<lambda>r. (fst (snd r), fst r)) (\<lambda>r. snd (snd r)) exploded"

text \<open>
  The output table: its day columns and, for every child, the row of its quantities.
  \<^verbatim>\<open>
  if len(records) == 0:
      result_df = pd.DataFrame(columns=["sItem"])
  else:
      exploded = pd.concat(records, ignore_index=True)
      grouped = ...
      pivot_df = grouped.pivot_table(index="sItem", columns="ProdDate", values="needQty",
                                     aggfunc="sum", fill_value=0)
      pivot_df.columns = [d.strftime("%Y-%m-%d") for d in pivot_df.columns]
      all_days = [TODAY + dt.timedelta(days=i) for i in range(HORIZON_DAYS + 1)]
      all_days_str = [d.strftime("%Y-%m-%d") for d in all_days]
      pivot_df = pivot_df.reindex(columns=all_days_str, fill_value=0)
      result_df = pivot_df.reset_index()
  \<close>
  A column label is the text of its date on both sides of the \<^verbatim>\<open>reindex\<close>, so labels are
  compared as dates.
\<close>

record result_df =
  day_columns :: "date list"
  child_rows :: "(part \<times> real list) list"

definition pivot_cell :: "((part \<times> date) \<times> real) list \<Rightarrow> part \<Rightarrow> date \<Rightarrow> real" where
  "pivot_cell grouped c d =
     (let vs = map snd (filter (\<lambda>r. fst r = (c, d)) grouped) in
      if vs = [] then 0 else sum_list vs)"

definition run :: "date \<Rightarrow> sched_row list \<Rightarrow> bom_row list \<Rightarrow> result_df" where
  "run today df_sched df_bom =
     (let records = explode_records (bom_cache df_bom) df_sched in
      if length records = 0 then \<lparr>day_columns = [], child_rows = []\<rparr>
      else
        (let exploded = concat records;
             grouped = grouped_needs exploded;
             pivot_index = sort (remdups (map (\<lambda>r. fst (fst r)) grouped));
             pivot_columns = sort (remdups (map (\<lambda>r. snd (fst r)) grouped));
             all_days = map (\<lambda>i. today + int i) [0..<HORIZON_DAYS + 1]
         in \<lparr>day_columns = all_days,
             child_rows =
               map (\<lambda>c. (c, map (\<lambda>d. if d \<in> set pivot_columns then pivot_cell grouped c d else 0)
                               all_days))
                 pivot_index\<rparr>))"

text \<open>
  The specification's wording of the exploded demand of a child on a day: the sum, over
  the plan entries of that day and the BOM lines of the entry's parent for that child, of
  quantity per unit times planned quantity.
\<close>

definition exploded_demand :: "sched_row list \<Rightarrow> bom_row list \<Rightarrow> part \<Rightarrow> date \<Rightarrow> real" where
  "exploded_demand plan bom c d =
     (\<Sum>e\<leftarrow>filter (\<lambda>e. ProdDate e = d) plan.
        \<Sum>b\<leftarrow>filter (\<lambda>b. bom_Item b = Item e \<and> sItem b = c) bom. bomValue b * Qty e)"

section \<open>Shortage detection: results\<close>

lemma find_map_list: "find P (map f xs) = map_option f (find (\<lambda>x. P (f x)) xs)"
  by (induction xs) auto

lemma find_upt_Suc:
  "find P [0..<Suc n] = (if P 0 then Some 0 else map_option Suc (find (\<lambda>i. P (Suc i)) [0..<n]))"
proof -
  have "[0..<Suc n] = 0 # map Suc [0..<n]"
    by (simp add: upt_conv_Cons map_Suc_upt del: upt_Suc)
  then show ?thesis
    by (simp add: find_map_list del: upt_Suc)
qed

lemma shortage_loop_found:
  "shortage_loop av ds cum (Some d) = (cum + sum_list (map snd ds), Some d)"
  by (induction ds arbitrary: cum) (auto simp: add.assoc)

lemma shortage_loop_search:
  "shortage_loop av ds cum None =
     (cum + sum_list (map snd ds),
      map_option (\<lambda>i. fst (ds ! i))
        (find (\<lambda>i. av - (cum + cum_through ds i) \<le> 0) [0..<length ds]))"
proof (induction ds arbitrary: cum)
  case Nil
  show ?case by simp
next
  case (Cons p ds)
  obtain d q where p: "p = (d, q)" by (cases p)
  show ?case
  proof (cases "av - (cum + q) \<le> 0")
    case True
    then show ?thesis
      unfolding p
      by (simp add: find_upt_Suc cum_through_def shortage_loop_found add.assoc del: upt_Suc)
  next
    case False
    then show ?thesis
      unfolding p
      by (simp add: find_upt_Suc cum_through_def Cons.IH add.assoc option.map_comp comp_def
          del: upt_Suc)
  qed
qed

text \<open>
  C3. The detector returns, as shortage date, the first day on which the available
  quantity minus the cumulative demand through that day is not positive (no date when
  there is no such day; a later day never replaces it), and, as shortage quantity, the
  available quantity minus the cumulative demand of the whole horizon. With 100 available
  and a daily demand of 40, 40, 40 the shortage is on the third day and the quantity is -20.
\<close>

theorem compute_shortage_first_day_final_remainder:
  "compute_shortage demand available =
     (first_shortfall available demand, available - sum_list (map snd demand))
   \<and> compute_shortage [(d1, 40), (d2, 40), (d3, 40)] 100 = (Some d3, - 20)"
proof -
  have general: "compute_shortage demand available =
     (first_shortfall available demand, available - sum_list (map snd demand))" for demand available
    by (simp add: compute_shortage_def first_shortfall_def shortage_loop_search)
  have "compute_shortage [(d1, 40), (d2, 40), (d3, 40)] 100 = (Some d3, - 20)"
    by (simp add: compute_shortage_def)
  with general show ?thesis by simp
qed

section \<open>Calendar: results\<close>

lemma py_index_empty: "py_index [] i = Inl IndexError"
  by (simp add: py_index_def)

lemma py_index_in_range: "0 \<le> i \<Longrightarrow> i < int (length xs) \<Longrightarrow> py_index xs i = Inr (xs ! nat i)"
  by (simp add: py_index_def)

lemma bisect_loop_invariant:
  "sorted a \<Longrightarrow> lo \<le> hi \<Longrightarrow> hi \<le> length a \<Longrightarrow> (\<forall>k<lo. a ! k < x) \<Longrightarrow>
   (\<forall>k. hi \<le> k \<and> k < length a \<longrightarrow> x \<le> a ! k) \<Longrightarrow>
   lo \<le> bisect_loop a x lo hi \<and> bisect_loop a x lo hi \<le> hi \<and>
   (\<forall>k<bisect_loop a x lo hi. a ! k < x) \<and>
   (\<forall>k. bisect_loop a x lo hi \<le> k \<and> k < length a \<longrightarrow> x \<le> a ! k)"
proof (induction a x lo hi rule: bisect_loop.induct)
  case (1 a x lo hi)
  show ?case
  proof (cases "lo < hi")
    case False
    then have "bisect_loop a x lo hi = lo"
      by (simp add: bisect_loop.simps [of a x lo hi])
    moreover have "lo = hi" using False "1.prems" by simp
    ultimately show ?thesis using "1.prems" by simp
  next
    case True
    define mid where "mid = (lo + hi) div 2"
    have mid: "lo \<le> mid" "mid < hi" using True by (auto simp: mid_def)
    show ?thesis
    proof (cases "a ! mid < x")
      case less: True
      have below: "\<forall>k<mid + 1. a ! k < x"
      proof (intro allI impI)
        fix k assume "k < mid + 1"
        then have "k \<le> mid" by simp
        moreover have "mid < length a" using mid "1.prems" by simp
        ultimately have "a ! k \<le> a ! mid"
          using \<open>sorted a\<close> by (simp add: sorted_nth_mono)
        with less show "a ! k < x" by simp
      qed
      have eq: "bisect_loop a x lo hi = bisect_loop a x (mid + 1) hi"
        using True less by (simp add: bisect_loop.simps [of a x lo hi] mid_def)
      have "mid + 1 \<le> bisect_loop a x (mid + 1) hi \<and> bisect_loop a x (mid + 1) hi \<le> hi \<and>
            (\<forall>k<bisect_loop a x (mid + 1) hi. a ! k < x) \<and>
            (\<forall>k. bisect_loop a x (mid + 1) hi \<le> k \<and> k < length a \<longrightarrow> x \<le> a ! k)"
        using "1.IH"(1) [OF True mid_def less] "1.prems" mid below by simp
      with eq mid show ?thesis by simp
    next
      case geq: False
      have above: "\<forall>k. mid \<le> k \<and> k < length a \<longrightarrow> x \<le> a ! k"
      proof (intro allI impI)
        fix k assume "mid \<le> k \<and> k < length a"
        then have "a ! mid \<le> a ! k"
          using \<open>sorted a\<close> by (simp add: sorted_nth_mono)
        with geq show "x \<le> a ! k" by simp
      qed
      have eq: "bisect_loop a x lo hi = bisect_loop a x lo mid"
        using True geq by (simp add: bisect_loop.simps [of a x lo hi] mid_def)
      have "lo \<le> bisect_loop a x lo mid \<and> bisect_loop a x lo mid \<le> mid \<and>
            (\<forall>k<bisect_loop a x lo mid. a ! k < x) \<and>
            (\<forall>k. bisect_loop a x lo mid \<le> k \<and> k < length a \<longrightarrow> x \<le> a ! k)"
        using "1.IH"(2) [OF True mid_def geq] "1.prems" mid above by simp
      with eq mid show ?thesis by simp
    qed
  qed
qed

lemma bisect_left_sorted:
  assumes "sorted a"
  shows "bisect_left a x \<le> length a"
    and "\<And>k. k < bisect_left a x \<Longrightarrow> a ! k < x"
    and "\<And>k. bisect_left a x \<le> k \<Longrightarrow> k < length a \<Longrightarrow> x \<le> a ! k"
  using bisect_loop_invariant [of a 0 "length a" x] assms
  by (simp_all add: bisect_left_def)


lemma nearest_workday_sorted:
  assumes srt: "sorted wd" and ne: "wd \<noteq> []"
  shows "\<exists>w. nearest_workday wd d = Inr w \<and> w \<in> set wd \<and> is_nearest_workday wd d w"
proof (cases "d \<le> hd wd")
  case True
  with ne show ?thesis
    by (simp add: nearest_workday_def is_nearest_workday_def)
next
  case not_first: False
  show ?thesis
  proof (cases "last wd \<le> d")
    case True
    with ne not_first show ?thesis
      by (simp add: nearest_workday_def is_nearest_workday_def)
  next
    case not_last: False
    define r where "r = bisect_left wd d"
    have len: "0 < length wd" using ne by simp
    have hd0: "hd wd = wd ! 0" using ne by (simp add: hd_conv_nth)
    have lastn: "last wd = wd ! (length wd - 1)" using ne by (simp add: last_conv_nth)
    have r_pos: "0 < r"
    proof (rule ccontr)
      assume "\<not> 0 < r"
      then have "d \<le> wd ! 0"
        using bisect_left_sorted(3) [OF srt, of d 0] len by (simp add: r_def)
      with not_first hd0 show False by simp
    qed
    have r_lt: "r < length wd"
    proof (rule ccontr)
      assume "\<not> r < length wd"
      then have "length wd - 1 < r" using len by linarith
      then have "wd ! (length wd - 1) < d"
        using bisect_left_sorted(2) [OF srt, of "length wd - 1" d] by (simp add: r_def)
      with not_last lastn show False by simp
    qed
    define b where "b = wd ! (r - 1)"
    define a where "a = wd ! r"
    have b_lt: "b < d"
      using bisect_left_sorted(2) [OF srt, of "r - 1" d] r_pos by (simp add: r_def b_def)
    have a_ge: "d \<le> a"
      using bisect_left_sorted(3) [OF srt, of d r] r_lt by (simp add: r_def a_def)
    have b_in: "b \<in> set wd" using r_lt by (simp add: b_def)
    have a_in: "a \<in> set wd" using r_lt by (simp add: a_def)
    have gap: "\<forall>x \<in> set wd. x \<le> b \<or> a \<le> x"
    proof
      fix x assume "x \<in> set wd"
      then obtain k where k: "k < length wd" "x = wd ! k"
        by (auto simp: in_set_conv_nth)
      show "x \<le> b \<or> a \<le> x"
      proof (cases "k < r")
        case True
        then have "k \<le> r - 1" by simp
        then have "wd ! k \<le> wd ! (r - 1)"
          using srt r_lt by (simp add: sorted_nth_mono)
        then show ?thesis by (simp add: k b_def)
      next
        case False
        then have "wd ! r \<le> wd ! k"
          using srt k by (simp add: sorted_nth_mono)
        then show ?thesis by (simp add: k a_def)
      qed
    qed
    have before: "py_index wd (int r - 1) = Inr b"
      using r_pos r_lt by (simp add: py_index_def b_def nat_diff_distrib')
    have after: "py_index wd (int r) = Inr a"
      using r_lt by (simp add: py_index_def a_def)
    have res: "nearest_workday wd d = Inr (if d - b \<le> a - d then b else a)"
      using ne not_first not_last before after
      by (simp add: nearest_workday_def r_def [symmetric])
    have "is_nearest_workday wd d (if d - b \<le> a - d then b else a)"
      unfolding is_nearest_workday_def using not_first not_last b_in a_in b_lt a_ge gap
      by auto
    with res a_in b_in show ?thesis by auto
  qed
qed

lemma bisect_left_member:
  assumes srt: "sorted wd" and mem: "s \<in> set wd"
  shows "bisect_left wd s < length wd \<and> wd ! bisect_left wd s = s \<and>
         (\<forall>j<bisect_left wd s. wd ! j < s)"
proof -
  define r where "r = bisect_left wd s"
  from mem obtain k where k: "k < length wd" "wd ! k = s"
    by (auto simp: in_set_conv_nth)
  have r_le_k: "r \<le> k"
  proof (rule ccontr)
    assume "\<not> r \<le> k"
    then have "wd ! k < s"
      using bisect_left_sorted(2) [OF srt, of k s] by (simp add: r_def)
    with k show False by simp
  qed
  then have r_lt: "r < length wd" using k by simp
  have "s \<le> wd ! r"
    using bisect_left_sorted(3) [OF srt, of s r] r_lt by (simp add: r_def)
  moreover have "wd ! r \<le> wd ! k"
    by (rule sorted_nth_mono [OF srt r_le_k k(1)])
  ultimately have "wd ! r = s" using k by simp
  moreover have "\<forall>j<r. wd ! j < s"
    using bisect_left_sorted(2) [OF srt, of _ s] by (simp add: r_def)
  ultimately show ?thesis using r_lt by (simp add: r_def)
qed

text \<open>
  C9. For a non-empty ascending calendar and a back offset \<open>n \<ge> 0\<close>, the due date is the
  workday at index \<open>max 0 (i - n)\<close>, where \<open>i\<close> is the (first) index of the nearest workday
  of the date: the first workday when the date is at or before it, the last when it is at
  or after it, otherwise the closer of the two workdays around the date, the earlier one
  on a tie.
\<close>

theorem delivery_date_back_offset:
  assumes "sorted wd" and "wd \<noteq> []" and "0 \<le> n"
  shows "\<exists>i<length wd.
           is_nearest_workday wd d (wd ! i) \<and> (\<forall>j<i. wd ! j < wd ! i) \<and>
           delivery_date_from_shortage wd d n = Inr (wd ! nat (max 0 (int i - n)))"
proof -
  from nearest_workday_sorted [OF assms(1,2), of d]
  obtain s where s: "nearest_workday wd d = Inr s" "s \<in> set wd" "is_nearest_workday wd d s"
    by blast
  define i where "i = bisect_left wd s"
  from bisect_left_member [OF assms(1) s(2)]
  have i: "i < length wd" "wd ! i = s" "\<forall>j<i. wd ! j < s"
    by (simp_all add: i_def)
  have "max 0 (int i - n) < int (length wd)"
    using i(1) assms(3) by linarith
  then have "py_index wd (max 0 (int i - n)) = Inr (wd ! nat (max 0 (int i - n)))"
    by (simp add: py_index_in_range)
  then have "delivery_date_from_shortage wd d n = Inr (wd ! nat (max 0 (int i - n)))"
    by (simp add: delivery_date_from_shortage_def s(1) i_def [symmetric])
  with i s(3) show ?thesis by auto
qed

theorem delivery_date_back_offset_witness:
  "sorted [1, 2, 5, 9 :: int] \<and> [1, 2, 5, 9 :: int] \<noteq> [] \<and> (0::int) \<le> 1 \<and>
   delivery_date_from_shortage [1, 2, 5, 9] 7 1 = Inr 2"
  using delivery_date_back_offset [of "[1, 2, 5, 9]" 1 7]
  by (auto simp: is_nearest_workday_def less_Suc_eq numeral_eq_Suc)

text \<open>
  C5. On an empty calendar \<^verbatim>\<open>nearest_workday\<close> returns the date as it is, but
  \<^verbatim>\<open>delivery_date_from_shortage\<close> then reads \<^verbatim>\<open>workdays[0]\<close> of the empty list: for every
  date and every back offset it raises \<^verbatim>\<open>IndexError\<close> instead of returning the date.
\<close>

theorem delivery_date_empty_calendar_raises:
  "delivery_date_from_shortage [] d n = Inl IndexError"
  by (simp add: delivery_date_from_shortage_def nearest_workday_def py_index_empty)

section \<open>Data frames: results\<close>

lemma merge_left_Nil: "merge_left on [] right = []"
  by (simp add: merge_left_def)

lemma merge_left_Cons:
  "merge_left on (l # ls) right =
     (case filter (on l) right of [] \<Rightarrow> [(l, None)] | ms \<Rightarrow> map (\<lambda>r. (l, Some r)) ms)
     @ merge_left on ls right"
  by (simp add: merge_left_def)

lemma merge_left_no_fan_out:
  "(\<forall>l \<in> set left. length (filter (on l) right) \<le> 1) \<Longrightarrow>
   map fst (merge_left on left right) = left"
proof (induction left)
  case Nil
  show ?case by (simp add: merge_left_Nil)
next
  case (Cons l ls)
  then have "length (filter (on l) right) \<le> 1" by simp
  then have "map fst (case filter (on l) right of [] \<Rightarrow> [(l, None)]
                       | ms \<Rightarrow> map (\<lambda>r. (l, Some r)) ms) = [l]"
    by (cases "filter (on l) right") (auto simp: comp_def)
  with Cons show ?case by (simp add: merge_left_Cons)
qed






lemma sort_remdups_cong: "set xs = set ys \<Longrightarrow> sort (remdups xs) = sort (remdups ys)"
  by (metis sorted_list_of_set_sort_remdups)

lemma filter_eq_distinct:
  "distinct ks \<Longrightarrow> filter (\<lambda>k. k = k0) ks = (if k0 \<in> set ks then [k0] else [])"
  by (induction ks) (auto simp: filter_empty_conv)

lemma filter_key_map_of:
  "distinct (map fst tbl) \<Longrightarrow>
   filter (\<lambda>r. fst r = k) tbl = (case map_of tbl k of None \<Rightarrow> [] | Some v \<Rightarrow> [(k, v)])"
proof (induction tbl)
  case Nil
  show ?case by simp
next
  case (Cons r tbl)
  obtain k' v' where r: "r = (k', v')" by (cases r)
  show ?case
  proof (cases "k' = k")
    case True
    with Cons.prems r have "k \<notin> fst ` set tbl" by simp
    then have "filter (\<lambda>r. fst r = k) tbl = []"
      by (auto simp: filter_empty_conv)
    with True r show ?thesis by simp
  next
    case False
    with Cons r show ?thesis by simp
  qed
qed

lemma merge_left_keyed:
  assumes "distinct (map fst tbl)"
  shows "merge_left (\<lambda>l r. fst r = key l) left tbl =
         map (\<lambda>l. (l, map_option (Pair (key l)) (map_of tbl (key l)))) left"
proof -
  have "(case filter (\<lambda>r. fst r = key l) tbl of [] \<Rightarrow> [(l, None)]
         | ms \<Rightarrow> map (\<lambda>r. (l, Some r)) ms) =
        [(l, map_option (Pair (key l)) (map_of tbl (key l)))]" for l
    by (simp add: filter_key_map_of [OF assms] split: option.splits)
  then show ?thesis
    by (simp add: merge_left_def)
qed





section \<open>Join keys: results\<close>
























section \<open>Startable quantity: results\<close>















text \<open>
  C2. One order line of part P with backlog 50 and two purchase lines of 10 each on its
  (order, line-number) key, no receipts: the join repeats the order line for each
  purchase line, so the function sums a backlog of 100 and returns 80, where
  \<open>A = 50\<close>, \<open>B = 20\<close>, \<open>C = 0\<close> give \<open>max 0 (A - (B - C)) = 30\<close>.
\<close>

theorem load_paintable_fan_out_inflates_backlog:
  "load_paintable
     [\<lparr>PDNO = Some 1, OPRO_K = ''10'', MITM_N = ''P'', chuzan = 50\<rparr>]
     [\<lparr>p041_PDNO = 1, p041_OPNO = IntV 10, p041_PONO = ''1'', p041_ORNO = ''A'', p041_OQUA = IntV 10\<rparr>,
      \<lparr>p041_PDNO = 1, p041_OPNO = IntV 10, p041_PONO = ''2'', p041_ORNO = ''A'', p041_OQUA = IntV 10\<rparr>]
     [] = [(''P'', 80)]
   \<and> map (\<lambda>g. (A_chuzan g, B_OQUA g, C_DQUA g))
       (agg_g (join_j
         [\<lparr>PDNO = Some 1, OPRO_K = ''10'', MITM_N = ''P'', chuzan = 50\<rparr>]
         [\<lparr>p041_PDNO = 1, p041_OPNO = IntV 10, p041_PONO = ''1'', p041_ORNO = ''A'', p041_OQUA = IntV 10\<rparr>,
          \<lparr>p041_PDNO = 1, p041_OPNO = IntV 10, p041_PONO = ''2'', p041_ORNO = ''A'', p041_OQUA = IntV 10\<rparr>]
         [])) = [(100, 20, 0)]
   \<and> max 0 (50 - (20 - 0)) = (30::real)"
  by code_simp


section \<open>Report assembly: results\<close>

lemma fillna_lookup: "fillna 0 (map_option snd (map_option (Pair k) (map_of tbl k))) = quantity_in tbl k"
  by (simp add: fillna_def quantity_in_def split: option.splits)

lemma main_out_rows:
  assumes "distinct (map fst stoc)" and "distinct (map fst theory)"
    and "distinct (map fst external)" and "distinct (map fst req)"
  shows "main_out mp stoc theory external n req =
     map (\<lambda>m. \<lparr>out_MITM_N = m, STOC = quantity_in stoc m, theory_cnt = quantity_in theory m,
                external_qty = quantity_in external m,
                stock_total = quantity_in theory m + quantity_in external m,
                requirements = (case map_of req m of None \<Rightarrow> replicate n 0 | Some q \<Rightarrow> q)\<rparr>) mp"
proof -
  have m1: "merge_left (\<lambda>l r. fst r = l) mp stoc =
            map (\<lambda>l. (l, map_option (Pair l) (map_of stoc l))) mp"
    using merge_left_keyed [OF assms(1), of "\<lambda>l. l" mp] by simp
  show ?thesis
    unfolding main_out_def Let_def m1
      merge_left_keyed [OF assms(2), of fst] merge_left_keyed [OF assms(3), of fst]
      merge_left_keyed [OF assms(4), of fst]
    by (simp add: comp_def fillna_lookup split: option.splits)
qed

text \<open>
  C1, as the code has it. With sources keyed by part (each part at most once in a source,
  as the loaders' \<^verbatim>\<open>groupby\<close> leaves them), the table has one row per part; its on-hand,
  theoretical and external columns are the part's quantity in each source, 0 when the
  part is absent from it, and its stock-total column is theoretical plus external. The
  quantity against which the shortage is computed is the on-hand quantity alone.
\<close>

theorem main_nets_against_on_hand_only:
  assumes "distinct (map fst stoc)" and "distinct (map fst theory)"
    and "distinct (map fst external)" and "distinct (map fst req)"
  shows "map (\<lambda>r. (out_MITM_N r, inv_total r, STOC r, theory_cnt r, external_qty r, stock_total r))
           (main_out mp stoc theory external n req) =
         map (\<lambda>m. (m, quantity_in stoc m, quantity_in stoc m, quantity_in theory m,
                    quantity_in external m, quantity_in theory m + quantity_in external m)) mp
       \<and> main_shortages date_cols (main_out mp stoc theory external n req) =
         map (\<lambda>m. compute_shortage
                     (zip date_cols (case map_of req m of None \<Rightarrow> replicate n 0 | Some q \<Rightarrow> q))
                     (quantity_in stoc m)) mp"
  by (simp add: main_out_rows [OF assms] main_shortages_def inv_total_def comp_def)

theorem main_nets_against_on_hand_only_witness:
  "distinct (map fst [(''P'', 10::real)]) \<and> distinct (map fst [(''P'', 5::real)]) \<and>
   distinct (map fst [(''P'', 3::real)]) \<and> distinct (map fst [(''P'', [12::real])]) \<and>
   main_shortages [738000]
     (main_out [''P'', ''Q''] [(''P'', 10)] [(''P'', 5)] [(''P'', 3)] 1 [(''P'', [12])]) =
   [(Some 738000, - 2), (Some 738000, 0)]"
proof -
  have d: "distinct (map fst [(''P'', 10::real)])" "distinct (map fst [(''P'', 5::real)])"
    "distinct (map fst [(''P'', 3::real)])" "distinct (map fst [(''P'', [12::real])])"
    by simp_all
  have "main_shortages [738000]
     (main_out [''P'', ''Q''] [(''P'', 10)] [(''P'', 5)] [(''P'', 3)] 1 [(''P'', [12])]) =
   [(Some 738000, - 2), (Some 738000, 0)]"
    using main_nets_against_on_hand_only [OF d, of "[''P'', ''Q'']" 1 "[738000]"]
    by (simp add: quantity_in_def compute_shortage_def)
  with d show ?thesis by simp
qed

text \<open>
  C1, as stated, fails: for a part with 10 on hand, 5 on the shelf count and 3 in the
  external warehouse, the quantity that \<^verbatim>\<open>main\<close> nets the demand against is 10, not 18;
  against a demand of 12 it reports a shortage of -2 on the first day, where 18 would
  leave 6 and no shortage.
\<close>

theorem inv_total_is_not_the_sum_of_sources:
  "map inv_total (main_out [''P''] [(''P'', 10)] [(''P'', 5)] [(''P'', 3)] 1 [(''P'', [12])])
     \<noteq> [quantity_in [(''P'', 10)] ''P'' + quantity_in [(''P'', 5)] ''P'' + quantity_in [(''P'', 3)] ''P'']
   \<and> map inv_total (main_out [''P''] [(''P'', 10)] [(''P'', 5)] [(''P'', 3)] 1 [(''P'', [12])]) = [10]
   \<and> main_shortages [738000]
       (main_out [''P''] [(''P'', 10)] [(''P'', 5)] [(''P'', 3)] 1 [(''P'', [12])]) = [(Some 738000, - 2)]
   \<and> compute_shortage [(738000, 12)]
       (quantity_in [(''P'', 10)] ''P'' + quantity_in [(''P'', 5)] ''P'' + quantity_in [(''P'', 3)] ''P'')
       = (None, 6)"
  by (simp add: main_out_def merge_left_def fillna_def inv_total_def main_shortages_def
      compute_shortage_def quantity_in_def)

section \<open>BOM explosion: results\<close>

lemma explode_records_concat:
  "concat (explode_records (bom_cache bom) plan) = concat (map (\<lambda>e. need_frame e (filter (\<lambda>b. bom_Item b = Item e) bom)) plan)"
  by (induction plan) (auto simp: bom_cache_def need_frame_def Let_def)

lemma explode_records_empty:
  "explode_records (bom_cache bom) plan = [] \<longleftrightarrow> concat (explode_records (bom_cache bom) plan) = []"
  by (induction plan) (auto simp: bom_cache_def need_frame_def Let_def)

lemma explode_records_skip:
  "filter (\<lambda>b. bom_Item b = Item e) bom = [] \<Longrightarrow>
   explode_records (bom_cache bom) (plan @ e # plan') = explode_records (bom_cache bom) (plan @ plan')"
  by (induction plan) (auto simp: bom_cache_def Let_def)

lemma need_frame_key:
  "filter (\<lambda>r. fst (snd r) = c \<and> fst r = d) (need_frame e (filter (\<lambda>b. bom_Item b = Item e) bom)) =
     (if ProdDate e = d
      then map (\<lambda>b. (ProdDate e, sItem b, bomValue b * Qty e))
             (filter (\<lambda>b. bom_Item b = Item e \<and> sItem b = c) bom)
      else [])"
  by (auto simp: need_frame_def filter_map comp_def filter_empty_conv intro: filter_cong)

lemma sum_key_exploded:
  "sum_list (map (\<lambda>r. snd (snd r))
      (filter (\<lambda>r. fst (snd r) = c \<and> fst r = d) (concat (map (\<lambda>e. need_frame e (filter (\<lambda>b. bom_Item b = Item e) bom)) plan)))) =
   exploded_demand plan bom c d"
proof (induction plan)
  case Nil
  show ?case by (simp add: exploded_demand_def)
next
  case (Cons e plan)
  then show ?case
    by (simp add: exploded_demand_def need_frame_key comp_def)
qed

lemma keys_exploded:
  "set (map (\<lambda>r. (fst (snd r), fst r)) (concat (explode_records (bom_cache bom) plan))) =
   {(sItem b, ProdDate e) | e b. e \<in> set plan \<and> b \<in> set bom \<and> bom_Item b = Item e}"
  by (auto simp: explode_records_concat need_frame_def image_iff) force+

lemma grouped_needs_exploded:
  "grouped_needs (concat (explode_records (bom_cache bom) plan)) =
     map (\<lambda>k. (k, exploded_demand plan bom (fst k) (snd k)))
       (sort (remdups (map (\<lambda>r. (fst (snd r), fst r)) (concat (explode_records (bom_cache bom) plan)))))"
proof -
  have "sum_list (map (\<lambda>r. snd (snd r))
      (filter (\<lambda>r. (fst (snd r), fst r) = k) (concat (map (\<lambda>e. need_frame e (filter (\<lambda>b. bom_Item b = Item e) bom)) plan)))) =
     exploded_demand plan bom (fst k) (snd k)" for k
    using sum_key_exploded [of "fst k" "snd k" bom plan]
    by (simp add: prod_eq_iff)
  then show ?thesis
    by (simp add: grouped_needs_def groupby_sum_def explode_records_concat)
qed


lemma pivot_cell_groupby_sum:
  "pivot_cell (groupby_sum key val rows) c d =
     sum_list (map val (filter (\<lambda>r. key r = (c, d)) rows))"
proof -
  let ?ks = "sort (remdups (map key rows))"
  let ?S = "\<lambda>k. sum_list (map val (filter (\<lambda>r. key r = k) rows))"
  have "filter (\<lambda>r. fst r = (c, d)) (map (\<lambda>k. (k, ?S k)) ?ks) =
        map (\<lambda>k. (k, ?S k)) (filter (\<lambda>k. k = (c, d)) ?ks)"
    by (simp add: filter_map comp_def)
  also have "\<dots> = (if (c, d) \<in> set ?ks then [((c, d), ?S (c, d))] else [])"
    by (simp add: filter_eq_distinct)
  finally have f: "filter (\<lambda>r. fst r = (c, d)) (groupby_sum key val rows) =
        (if (c, d) \<in> set ?ks then [((c, d), ?S (c, d))] else [])"
    by (simp add: groupby_sum_def)
  show ?thesis
  proof (cases "(c, d) \<in> set ?ks")
    case True
    with f show ?thesis by (simp add: pivot_cell_def)
  next
    case False
    then have "filter (\<lambda>r. key r = (c, d)) rows = []"
      by (force simp: filter_empty_conv)
    with False f show ?thesis by (simp add: pivot_cell_def)
  qed
qed

lemma pivot_cell_exploded:
  "pivot_cell (grouped_needs (concat (explode_records (bom_cache bom) plan))) c d =
   exploded_demand plan bom c d"
  using sum_key_exploded [of c d bom plan]
  by (simp add: grouped_needs_def pivot_cell_groupby_sum explode_records_concat)

lemma no_record_no_demand:
  assumes "(c, d) \<notin> set (map (\<lambda>r. (fst (snd r), fst r)) (concat (explode_records (bom_cache bom) plan)))"
  shows "exploded_demand plan bom c d = 0"
proof -
  from assms have "filter (\<lambda>r. fst (snd r) = c \<and> fst r = d) (concat (map (\<lambda>e. need_frame e (filter (\<lambda>b. bom_Item b = Item e) bom)) plan)) = []"
    by (auto simp: filter_empty_conv explode_records_concat)
  with sum_key_exploded [of c d bom plan] show ?thesis by simp
qed

lemma keys_grouped_needs:
  "map fst (grouped_needs exploded) = sort (remdups (map (\<lambda>r. (fst (snd r), fst r)) exploded))"
  by (simp add: grouped_needs_def groupby_sum_def comp_def)

lemma child_rows_run:
  "child_rows (run today plan bom) =
     map (\<lambda>c. (c, map (exploded_demand plan bom c) (map (\<lambda>i. today + int i) [0..<HORIZON_DAYS + 1])))
       (sort (remdups (map (\<lambda>r. fst (snd r)) (concat (explode_records (bom_cache bom) plan)))))"
proof (cases "explode_records (bom_cache bom) plan = []")
  case True
  then show ?thesis by (simp add: run_def)
next
  case False
  let ?exploded = "concat (explode_records (bom_cache bom) plan)"
  let ?grouped = "grouped_needs ?exploded"
  have index: "sort (remdups (map (\<lambda>r. fst (fst r)) ?grouped)) =
               sort (remdups (map (\<lambda>r. fst (snd r)) ?exploded))"
  proof (rule sort_remdups_cong)
    have "set (map (\<lambda>r. fst (fst r)) ?grouped) = fst ` set (map fst ?grouped)"
      by (simp add: image_image)
    also have "\<dots> = fst ` set (map (\<lambda>r. (fst (snd r), fst r)) ?exploded)"
      by (simp only: keys_grouped_needs set_sort set_remdups)
    also have "\<dots> = set (map (\<lambda>r. fst (snd r)) ?exploded)"
      by (simp add: image_image)
    finally show "set (map (\<lambda>r. fst (fst r)) ?grouped) = set (map (\<lambda>r. fst (snd r)) ?exploded)" .
  qed
  have cell: "(if d \<in> (\<lambda>r. snd (fst r)) ` set ?grouped
               then pivot_cell ?grouped c d else 0) = exploded_demand plan bom c d" for c d
  proof (cases "d \<in> (\<lambda>r. snd (fst r)) ` set ?grouped")
    case True
    then show ?thesis by (simp add: pivot_cell_exploded)
  next
    case False
    have "(\<lambda>r. snd (fst r)) ` set ?grouped = snd ` set (map fst ?grouped)"
      by (simp add: image_image)
    also have "\<dots> = snd ` set (map (\<lambda>r. (fst (snd r), fst r)) ?exploded)"
      by (simp only: keys_grouped_needs set_sort set_remdups)
    finally have "d \<notin> snd ` set (map (\<lambda>r. (fst (snd r), fst r)) ?exploded)"
      using False by simp
    then have "(c, d) \<notin> set (map (\<lambda>r. (fst (snd r), fst r)) ?exploded)"
      by force
    then have "exploded_demand plan bom c d = 0" by (rule no_record_no_demand)
    with False show ?thesis by simp
  qed
  from False show ?thesis
    by (simp add: run_def Let_def index cell del: upt_Suc)
qed


lemma day_columns_run:
  "explode_records (bom_cache bom) plan \<noteq> [] \<Longrightarrow>
   day_columns (run today plan bom) = map (\<lambda>i. today + int i) [0..<HORIZON_DAYS + 1]"
  by (simp add: run_def Let_def del: upt_Suc)

lemma all_days_ascending: "sorted_wrt (<) (map (\<lambda>i. today + int i) [0..<n])"
  by (simp add: sorted_wrt_map del: upt_Suc)

lemma all_days_set: "set (map (\<lambda>i. today + int i) [0..<n + 1]) = {today .. today + int n}"
proof (intro set_eqI iffI)
  fix d assume "d \<in> set (map (\<lambda>i. today + int i) [0..<n + 1])"
  then show "d \<in> {today .. today + int n}" by auto
next
  fix d assume "d \<in> {today .. today + int n}"
  then have "nat (d - today) < n + 1" "d = today + int (nat (d - today))" by auto
  then show "d \<in> set (map (\<lambda>i. today + int i) [0..<n + 1])"
    unfolding set_map set_upt by (metis atLeastLessThan_iff imageI le0)
qed

text \<open>
  C7. The grouped demand has one record for every (child, date) that some plan entry and
  some BOM line of its parent produce, and its quantity is the sum, over the plan entries
  of that date and the BOM lines of the entry's parent for that child, of quantity per
  unit times planned quantity; the output row of a child holds that sum for every day of
  the horizon. A plan entry whose parent has no BOM line adds no record: the records and
  the output are the same with the entry as without it.
\<close>

theorem run_sums_exploded_demand:
  "grouped_needs (concat (explode_records (bom_cache bom) plan)) =
     map (\<lambda>k. (k, exploded_demand plan bom (fst k) (snd k)))
       (sort (remdups (map (\<lambda>r. (fst (snd r), fst r)) (concat (explode_records (bom_cache bom) plan)))))
   \<and> set (map (\<lambda>r. (fst (snd r), fst r)) (concat (explode_records (bom_cache bom) plan))) =
       {(sItem b, ProdDate e) | e b. e \<in> set plan \<and> b \<in> set bom \<and> bom_Item b = Item e}
   \<and> distinct (map fst (grouped_needs (concat (explode_records (bom_cache bom) plan))))
   \<and> child_rows (run today plan bom) =
       map (\<lambda>c. (c, map (\<lambda>i. exploded_demand plan bom c (today + int i)) [0..<HORIZON_DAYS + 1]))
         (sort (remdups (map (\<lambda>r. fst (snd r)) (concat (explode_records (bom_cache bom) plan)))))
   \<and> (filter (\<lambda>b. bom_Item b = Item e) bom = [] \<longrightarrow>
        explode_records (bom_cache bom) (plan @ e # plan') = explode_records (bom_cache bom) (plan @ plan')
        \<and> run today (plan @ e # plan') bom = run today (plan @ plan') bom)"
proof -
  have skip: "filter (\<lambda>b. bom_Item b = Item e) bom = [] \<longrightarrow>
        explode_records (bom_cache bom) (plan @ e # plan') = explode_records (bom_cache bom) (plan @ plan')
        \<and> run today (plan @ e # plan') bom = run today (plan @ plan') bom"
    by (simp add: run_def explode_records_skip del: upt_Suc)
  have rows: "child_rows (run today plan bom) =
       map (\<lambda>c. (c, map (\<lambda>i. exploded_demand plan bom c (today + int i)) [0..<HORIZON_DAYS + 1]))
         (sort (remdups (map (\<lambda>r. fst (snd r)) (concat (explode_records (bom_cache bom) plan)))))"
    by (simp add: child_rows_run comp_def del: upt_Suc)
  have dist: "distinct (map fst (grouped_needs (concat (explode_records (bom_cache bom) plan))))"
    by (simp add: keys_grouped_needs)
  from grouped_needs_exploded [of bom plan] keys_exploded [of bom plan] dist rows skip
  show ?thesis by (intro conjI)
qed

theorem run_sums_exploded_demand_witness:
  "filter (\<lambda>b. bom_Item b = Item \<lparr>ProdDate = 109, Item = ''P9'', Qty = 7\<rparr>)
     [\<lparr>bom_Item = ''P1'', sItem = ''C1'', bomValue = 2\<rparr>] = []
   \<and> grouped_needs (concat (explode_records
        (bom_cache [\<lparr>bom_Item = ''P1'', sItem = ''C1'', bomValue = 2\<rparr>])
        [\<lparr>ProdDate = 109, Item = ''P1'', Qty = 5\<rparr>, \<lparr>ProdDate = 109, Item = ''P9'', Qty = 7\<rparr>]))
     = [((''C1'', 109), 10)]"
proof -
  have h: "filter (\<lambda>b. bom_Item b = Item \<lparr>ProdDate = 109, Item = ''P9'', Qty = 7\<rparr>)
     [\<lparr>bom_Item = ''P1'', sItem = ''C1'', bomValue = 2\<rparr>] = []"
    by simp
  have skip: "explode_records (bom_cache [\<lparr>bom_Item = ''P1'', sItem = ''C1'', bomValue = 2\<rparr>])
        [\<lparr>ProdDate = 109, Item = ''P1'', Qty = 5\<rparr>, \<lparr>ProdDate = 109, Item = ''P9'', Qty = 7\<rparr>] =
      explode_records (bom_cache [\<lparr>bom_Item = ''P1'', sItem = ''C1'', bomValue = 2\<rparr>])
        [\<lparr>ProdDate = 109, Item = ''P1'', Qty = 5\<rparr>]"
    using h run_sums_exploded_demand
      [of "[\<lparr>bom_Item = ''P1'', sItem = ''C1'', bomValue = 2\<rparr>]"
          "[\<lparr>ProdDate = 109, Item = ''P1'', Qty = 5\<rparr>]" 100
          "\<lparr>ProdDate = 109, Item = ''P9'', Qty = 7\<rparr>" "[]"]
    by simp
  have g: "grouped_needs (concat (explode_records
        (bom_cache [\<lparr>bom_Item = ''P1'', sItem = ''C1'', bomValue = 2\<rparr>])
        [\<lparr>ProdDate = 109, Item = ''P1'', Qty = 5\<rparr>])) = [((''C1'', 109), 10)]"
    by code_simp
  from h skip g show ?thesis by simp
qed

text \<open>
  C8. A child that occurs in at least one demand record has exactly one row in the
  output; the row has one quantity for every day column, the day columns are the days
  from today to today plus the horizon in ascending order, without gap (61 days for the
  horizon of 60), and a day without demand record for the child holds 0.
\<close>

theorem run_densified:
  assumes "c \<in> set (map (\<lambda>r. fst (snd r)) (concat (explode_records (bom_cache bom) plan)))"
  shows "\<exists>vals.
           filter (\<lambda>r. fst r = c) (child_rows (run today plan bom)) = [(c, vals)]
           \<and> length vals = HORIZON_DAYS + 1 \<and> HORIZON_DAYS + 1 = 61
           \<and> day_columns (run today plan bom) = map (\<lambda>i. today + int i) [0..<HORIZON_DAYS + 1]
           \<and> sorted_wrt (<) (day_columns (run today plan bom))
           \<and> set (day_columns (run today plan bom)) = {today .. today + int HORIZON_DAYS}
           \<and> (\<forall>i<length vals.
                 vals ! i = exploded_demand plan bom c (today + int i) \<and>
                 ((c, today + int i) \<notin> set (map (\<lambda>r. (fst (snd r), fst r))
                     (concat (explode_records (bom_cache bom) plan))) \<longrightarrow> vals ! i = 0))"
proof -
  let ?ks = "sort (remdups (map (\<lambda>r. fst (snd r)) (concat (explode_records (bom_cache bom) plan))))"
  let ?F = "\<lambda>c. map (exploded_demand plan bom c) (map (\<lambda>i. today + int i) [0..<HORIZON_DAYS + 1])"
  from assms have c: "c \<in> set ?ks" by simp
  have "concat (explode_records (bom_cache bom) plan) \<noteq> []"
  proof
    assume "concat (explode_records (bom_cache bom) plan) = []"
    with assms show False by (simp only: list.map list.set empty_iff)
  qed
  then have ne: "explode_records (bom_cache bom) plan \<noteq> []"
    by (simp only: explode_records_empty not_False_eq_True)
  have "filter (\<lambda>r. fst r = c) (map (\<lambda>c. (c, ?F c)) ?ks) = map (\<lambda>c. (c, ?F c)) (filter (\<lambda>k. k = c) ?ks)"
    by (simp add: filter_map comp_def)
  also have "\<dots> = [(c, ?F c)]"
    using c by (simp add: filter_eq_distinct del: upt_Suc)
  finally have one: "filter (\<lambda>r. fst r = c) (child_rows (run today plan bom)) = [(c, ?F c)]"
    by (simp only: child_rows_run)
  have len: "length (?F c) = HORIZON_DAYS + 1" by simp
  have val: "\<forall>i<length (?F c).
                 ?F c ! i = exploded_demand plan bom c (today + int i) \<and>
                 ((c, today + int i) \<notin> set (map (\<lambda>r. (fst (snd r), fst r))
                     (concat (explode_records (bom_cache bom) plan))) \<longrightarrow> ?F c ! i = 0)"
  proof (intro allI impI)
    fix i assume "i < length (?F c)"
    then have i: "i < HORIZON_DAYS + 1" by simp
    then have "?F c ! i = exploded_demand plan bom c (today + int i)"
      by (simp add: nth_map del: upt_Suc)
    then show "?F c ! i = exploded_demand plan bom c (today + int i) \<and>
                 ((c, today + int i) \<notin> set (map (\<lambda>r. (fst (snd r), fst r))
                     (concat (explode_records (bom_cache bom) plan))) \<longrightarrow> ?F c ! i = 0)"
      using no_record_no_demand [of c "today + int i" bom plan] by simp
  qed
  have cols: "day_columns (run today plan bom) = map (\<lambda>i. today + int i) [0..<HORIZON_DAYS + 1]"
    by (rule day_columns_run [OF ne])
  have asc: "sorted_wrt (<) (day_columns (run today plan bom))"
    unfolding cols by (rule all_days_ascending)
  have days: "set (day_columns (run today plan bom)) = {today .. today + int HORIZON_DAYS}"
    unfolding cols by (rule all_days_set)
  have sixty: "HORIZON_DAYS + 1 = 61" by (simp add: HORIZON_DAYS_def)
  from one len sixty cols asc days val show ?thesis by blast
qed

theorem run_densified_witness:
  "''C1'' \<in> set (map (\<lambda>r. fst (snd r)) (concat (explode_records
       (bom_cache [\<lparr>bom_Item = ''P1'', sItem = ''C1'', bomValue = 2\<rparr>])
       [\<lparr>ProdDate = 109, Item = ''P1'', Qty = 5\<rparr>])))
   \<and> map (\<lambda>r. (fst r, length (snd r), snd r ! 9, snd r ! 10))
       (filter (\<lambda>r. fst r = ''C1'')
         (child_rows (run 100 [\<lparr>ProdDate = 109, Item = ''P1'', Qty = 5\<rparr>]
            [\<lparr>bom_Item = ''P1'', sItem = ''C1'', bomValue = 2\<rparr>])))
     = [(''C1'', 61, 10, 0)]"
proof -
  let ?bom = "[\<lparr>bom_Item = ''P1'', sItem = ''C1'', bomValue = 2\<rparr>]"
  let ?plan = "[\<lparr>ProdDate = 109, Item = ''P1'', Qty = 5\<rparr>]"
  have h: "''C1'' \<in> set (map (\<lambda>r. fst (snd r)) (concat (explode_records (bom_cache ?bom) ?plan)))"
    by (simp add: bom_cache_def need_frame_def)
  from run_densified [OF h, of 100]
  obtain vals where v: "filter (\<lambda>r. fst r = ''C1'') (child_rows (run 100 ?plan ?bom)) = [(''C1'', vals)]"
    "length vals = HORIZON_DAYS + 1" "HORIZON_DAYS + 1 = 61"
    "\<forall>i<length vals. vals ! i = exploded_demand ?plan ?bom ''C1'' (100 + int i) \<and>
       ((''C1'', 100 + int i) \<notin> set (map (\<lambda>r. (fst (snd r), fst r))
          (concat (explode_records (bom_cache ?bom) ?plan))) \<longrightarrow> vals ! i = 0)"
    by blast
  from v have "vals ! 9 = exploded_demand ?plan ?bom ''C1'' (100 + int 9)" by simp
  then have nine: "vals ! 9 = 10" by (simp add: exploded_demand_def)
  from v have "vals ! 10 = exploded_demand ?plan ?bom ''C1'' (100 + int 10)" by simp
  then have ten: "vals ! 10 = 0" by (simp add: exploded_demand_def)
  from h v nine ten show ?thesis by simp
qed


end
